theory Spec2Isabelle
  imports Main
begin

section \<open>Shared notions: errors, promises, file system\<close>

text \<open>
  Both scripts are event-driven glue around libraries (HTTP client, CSV codec, database
  client, crawler). The libraries are the environment: what they report to the scripts is
  an input of the model (a list of events, an outcome per call), and what the scripts'
  handlers do with it is the model.

  An error object is either the one \<^verbatim>\<open>downloadFile\<close> builds itself
  (\<^verbatim>\<open>new Error(`Failed to get '${url}' (${response.statusCode})`)\<close>) or one a
  library hands to a handler, identified by its message.
\<close>

datatype error =
    FailedToGet string nat
  | LibError string

text \<open>
  A promise is pending until the first \<^verbatim>\<open>resolve\<close> or \<^verbatim>\<open>reject\<close>;
  later calls of either have no effect.
\<close>

datatype 'a promise = Pending | Fulfilled 'a | Rejected error

definition resolve :: "'a \<Rightarrow> 'a promise \<Rightarrow> 'a promise" where
  "resolve v p = (case p of Pending \<Rightarrow> Fulfilled v | Fulfilled w \<Rightarrow> Fulfilled w | Rejected e \<Rightarrow> Rejected e)"

definition reject :: "error \<Rightarrow> 'a promise \<Rightarrow> 'a promise" where
  "reject e p = (case p of Pending \<Rightarrow> Rejected e | Fulfilled w \<Rightarrow> Fulfilled w | Rejected d \<Rightarrow> Rejected d)"

type_synonym path = string

section \<open>Challenge 1: \<^verbatim>\<open>downloadFile\<close>\<close>

text \<open>
  The files of the local disk, by path, with their contents.
\<close>

type_synonym disk = "path \<rightharpoonup> string"

text \<open>
  \<^verbatim>\<open>fs.unlink(destination, callback)\<close>: the callback receives an error when the
  operating system refuses (the environment's \<open>refusal\<close>) or when there is no file at
  the path; otherwise the file is gone.
\<close>

definition unlink :: "path \<Rightarrow> error option \<Rightarrow> disk \<Rightarrow> error option \<times> disk" where
  "unlink p refusal files =
     (case refusal of
        Some unlinkErr \<Rightarrow> (Some unlinkErr, files)
      | None \<Rightarrow>
          (if files p = None then (Some (LibError ''ENOENT''), files)
           else (None, files(p := None))))"

text \<open>
  What the HTTP client and the write stream report while \<^verbatim>\<open>downloadFile\<close> runs:
  \<^item> \<open>Response status\<close>: the callback of \<^verbatim>\<open>https.get\<close> is called with a response;
  \<^item> \<open>BodyData bytes\<close>: a chunk of the response body arrives;
  \<^item> \<open>FileFinish closeErr\<close>: the write stream emits \<^verbatim>\<open>finish\<close>, and
    \<^verbatim>\<open>file.close\<close> then calls back with \<open>closeErr\<close>;
  \<^item> \<open>RequestError err refusal\<close>: the request emits \<^verbatim>\<open>error\<close> with \<open>err\<close>,
    and the operating system's answer to the unlink that follows is \<open>refusal\<close>;
  \<^item> \<open>BodyAborted\<close>: the connection is closed before the body is complete and the
    client reports it on the response, not on the request.
\<close>

datatype dl_event =
    Response nat
  | BodyData string
  | FileFinish "error option"
  | RequestError error "error option"
  | BodyAborted

record dl_state =
  dl_files :: disk
  dl_promise :: "unit promise"
  dl_piping :: bool

text \<open>
  One handler invocation. \<open>dl_piping\<close> says that \<^verbatim>\<open>response.pipe(file)\<close> has run;
  the \<^verbatim>\<open>finish\<close> listener is registered in the same branch, so before that a
  \<^verbatim>\<open>finish\<close> has no listener and body data goes nowhere. A chunk written after
  the file was unlinked goes to the open descriptor and leaves the path absent.
  \<^verbatim>\<open>downloadFile\<close> registers nothing on the response, and \<^verbatim>\<open>pipe\<close> does
  not end the file when the response breaks off: on \<open>BodyAborted\<close> no handler of
  \<^verbatim>\<open>downloadFile\<close> runs, then or later. The
  write stream itself is taken to open and to write: it has no \<^verbatim>\<open>error\<close>
  listener, so a failure of its own would end the process and no handler would run.
\<close>

fun dl_step :: "string \<Rightarrow> path \<Rightarrow> dl_state \<Rightarrow> dl_event \<Rightarrow> dl_state" where
  "dl_step url destination st (Response statusCode) =
     (if statusCode \<noteq> 200
      then st\<lparr>dl_promise := reject (FailedToGet url statusCode) (dl_promise st)\<rparr>
      else st\<lparr>dl_piping := True\<rparr>)"
| "dl_step url destination st (BodyData bytes) =
     (if dl_piping st
      then (case dl_files st destination of
              None \<Rightarrow> st
            | Some written \<Rightarrow> st\<lparr>dl_files := (dl_files st)(destination \<mapsto> written @ bytes)\<rparr>)
      else st)"
| "dl_step url destination st (FileFinish closeErr) =
     (if dl_piping st
      then (case closeErr of
              Some err \<Rightarrow> st\<lparr>dl_promise := reject err (dl_promise st)\<rparr>
            | None \<Rightarrow> st\<lparr>dl_promise := resolve () (dl_promise st)\<rparr>)
      else st)"
| "dl_step url destination st (RequestError err refusal) =
     (case unlink destination refusal (dl_files st) of
        (Some unlinkErr, files') \<Rightarrow>
          st\<lparr>dl_files := files', dl_promise := reject unlinkErr (dl_promise st)\<rparr>
      | (None, files') \<Rightarrow>
          st\<lparr>dl_files := files', dl_promise := reject err (dl_promise st)\<rparr>)"
| "dl_step url destination st BodyAborted = st"

text \<open>
  \<^verbatim>\<open>downloadFile(url, destination)\<close> on a disk \<open>files\<close>:
  \<^verbatim>\<open>fs.createWriteStream(destination)\<close> creates the file, or truncates the one that is
  there, before the request is made; then the handlers run on the events.
\<close>

definition downloadFile :: "string \<Rightarrow> path \<Rightarrow> disk \<Rightarrow> dl_event list \<Rightarrow> dl_state" where
  "downloadFile url destination files events =
     foldl (dl_step url destination)
       \<lparr>dl_files = files(destination \<mapsto> []), dl_promise = Pending, dl_piping = False\<rparr>
       events"

text \<open>A transport failure whose unlink went through.\<close>

fun deleting :: "dl_event \<Rightarrow> bool" where
  "deleting (RequestError err None) = True"
| "deleting ev = False"

section \<open>Challenge 1: \<^verbatim>\<open>processCSV\<close>\<close>

text \<open>
  What a stream pipeline reports. \<^verbatim>\<open>fs.createReadStream(p).pipe(parse(...))\<close>
  returns the parser, so the \<^verbatim>\<open>data\<close>, \<^verbatim>\<open>end\<close> and
  \<^verbatim>\<open>error\<close> listeners chained after it are the parser's. The file stream has no
  \<^verbatim>\<open>error\<close> listener: an error it emits (\<open>SourceError\<close>) is thrown as an
  uncaught exception, which ends the process.
\<close>

datatype 'r stream_event =
    Data 'r
  | End
  | ParserError error
  | SourceError error

text \<open>
  \<^verbatim>\<open>processCSV\<close> has one array object, \<^verbatim>\<open>rows\<close>. It is pushed to, handed to
  \<^verbatim>\<open>insert\<close> and emptied in place by \<^verbatim>\<open>rows.length = 0\<close>: every insert call
  receives a reference to that same object, never a copy. An insert call that has been
  issued is carried out by the database client later, in a turn of the event loop of
  its own (the query is built and run once a connection has been acquired); it reads the
  array it was given then.
\<close>

datatype array_ref = RowsArray

record insert_call =
  ins_table :: string
  ins_values :: array_ref
  ins_awaited :: bool

text \<open>
  The events of one \<^verbatim>\<open>processCSV\<close> run: the parser's, and
  \<open>InsertSettles k failure\<close>: the database client carries out the \<open>k\<close>-th insert call
  (counted from 0) and its promise settles, rejected when \<open>failure\<close> is an error.
\<close>

datatype 'r csv_event =
    Stream "'r stream_event"
  | InsertSettles nat "error option"

text \<open>
  \<open>seen_at_call\<close> is an observation, read by no handler: the contents of the array at
  the moment of each insert call.
\<close>

record 'r csv_state =
  rows :: "'r list"
  calls :: "insert_call list"
  seen_at_call :: "'r list list"
  settled :: "nat list"
  store :: "string \<Rightarrow> 'r list"
  csv_promise :: "unit promise"
  csv_uncaught :: "error option"

definition deref :: "'r csv_state \<Rightarrow> array_ref \<Rightarrow> 'r list" where
  "deref st r = (case r of RowsArray \<Rightarrow> rows st)"

definition issue_insert :: "string \<Rightarrow> bool \<Rightarrow> 'r csv_state \<Rightarrow> 'r csv_state" where
  "issue_insert tableName awaited st =
     st\<lparr>calls := calls st @ [\<lparr>ins_table = tableName, ins_values = RowsArray, ins_awaited = awaited\<rparr>],
        seen_at_call := seen_at_call st @ [rows st]\<rparr>"

text \<open>
  The parser's listeners. In the \<^verbatim>\<open>end\<close> listener the last insert is awaited, so
  \<^verbatim>\<open>resolve()\<close> runs when that insert settles (see \<open>insert_settles\<close>); with no
  rows left it runs at once.
\<close>

fun on_stream :: "string \<Rightarrow> 'r csv_state \<Rightarrow> 'r stream_event \<Rightarrow> 'r csv_state" where
  "on_stream tableName st (Data row) =
     (let st1 = st\<lparr>rows := rows st @ [row]\<rparr> in
      if length (rows st1) = 100
      then (issue_insert tableName False st1)\<lparr>rows := []\<rparr>
      else st1)"
| "on_stream tableName st End =
     (if length (rows st) > 0
      then issue_insert tableName True st
      else st\<lparr>csv_promise := resolve () (csv_promise st)\<rparr>)"
| "on_stream tableName st (ParserError err) = st\<lparr>csv_promise := reject err (csv_promise st)\<rparr>"
| "on_stream tableName st (SourceError err) = st\<lparr>csv_uncaught := Some err\<rparr>"

text \<open>
  The \<open>k\<close>-th insert call is carried out and settles (once; an index that was not issued
  or has settled is no event of the run). On success the rows the referenced array holds
  now are appended to the table. \<^verbatim>\<open>.catch(reject)\<close> rejects the promise of
  \<^verbatim>\<open>processCSV\<close> on failure; after the awaited insert, failed or not,
  \<^verbatim>\<open>resolve()\<close> runs.
\<close>

definition insert_settles :: "'r csv_state \<Rightarrow> nat \<Rightarrow> error option \<Rightarrow> 'r csv_state" where
  "insert_settles st k failure =
     (if k < length (calls st) \<and> k \<notin> set (settled st)
      then
        (let c = calls st ! k;
             st1 = st\<lparr>settled := k # settled st\<rparr>;
             st2 = (case failure of
                      Some err \<Rightarrow> st1\<lparr>csv_promise := reject err (csv_promise st1)\<rparr>
                    | None \<Rightarrow>
                        st1\<lparr>store := (store st1)
                              (ins_table c := store st1 (ins_table c) @ deref st1 (ins_values c))\<rparr>)
         in if ins_awaited c then st2\<lparr>csv_promise := resolve () (csv_promise st2)\<rparr> else st2)
      else st)"

definition csv_step :: "string \<Rightarrow> 'r csv_state \<Rightarrow> 'r csv_event \<Rightarrow> 'r csv_state" where
  "csv_step tableName st ev =
     (if csv_uncaught st \<noteq> None then st
      else (case ev of
              Stream e \<Rightarrow> on_stream tableName st e
            | InsertSettles k failure \<Rightarrow> insert_settles st k failure))"

text \<open>
  \<^verbatim>\<open>processCSV(filePath, tableName, db)\<close>: \<open>events\<close> is what the parser of
  \<^verbatim>\<open>filePath\<close> and the database client report, in the order the event loop delivers
  it, and \<open>db\<close> the tables before the call.
\<close>

definition processCSV :: "string \<Rightarrow> (string \<Rightarrow> 'r list) \<Rightarrow> 'r csv_event list \<Rightarrow> 'r csv_state" where
  "processCSV tableName db events =
     foldl (csv_step tableName)
       \<lparr>rows = [], calls = [], seen_at_call = [], settled = [], store = db,
        csv_promise = Pending, csv_uncaught = None\<rparr>
       events"

section \<open>Challenge 1: \<^verbatim>\<open>processDataDump\<close>\<close>

text \<open>
  The body of \<^verbatim>\<open>processDataDump\<close> is a \<^verbatim>\<open>try\<close> block of awaited calls, one
  after the other, and a \<^verbatim>\<open>catch\<close> that logs. Each awaited call is a stage; how
  its promise settles is the environment's, by the position of the call in the run.
\<close>

datatype stage =
    ExtractTarGz path path
  | Readdir path
  | DownloadFile string path
  | SetupDatabase path
  | ProcessCSV path string
  | DbDestroy

datatype trace_entry =
    Started stage
  | Completed stage
  | ErrorLogged error

fun awaits :: "(nat \<Rightarrow> unit promise) \<Rightarrow> nat \<Rightarrow> stage list \<Rightarrow> trace_entry list" where
  "awaits outcome n [] = []"
| "awaits outcome n (s # rest) =
     (case outcome n of
        Pending \<Rightarrow> [Started s]
      | Rejected err \<Rightarrow> [Started s, ErrorLogged err]
      | Fulfilled u \<Rightarrow> Started s # Completed s # awaits outcome (Suc n) rest)"

definition processDataDump :: "path \<Rightarrow> (nat \<Rightarrow> unit promise) \<Rightarrow> trace_entry list" where
  "processDataDump dirname outcome =
     (let tarGzPath = dirname @ ''/tmp/dump.tar.gz'';
          extractPath = dirname @ ''/tmp'';
          dbPath = dirname @ ''/out/database.sqlite'';
          customersCSV = extractPath @ ''/customers.csv'';
          organizationsCSV = extractPath @ ''/organizations.csv''
      in awaits outcome 0
           [ExtractTarGz tarGzPath extractPath,
            Readdir extractPath,
            DownloadFile ''https://fiber-challenges.s3.amazonaws.com/dump.tar.gz'' tarGzPath,
            ExtractTarGz tarGzPath extractPath,
            SetupDatabase dbPath,
            ProcessCSV customersCSV ''customers'',
            ProcessCSV organizationsCSV ''organizations'',
            DbDestroy])"

text \<open>
  Reading a trace from its start: an extraction is started while no download has
  completed yet.
\<close>

fun extraction_before_download :: "trace_entry list \<Rightarrow> bool" where
  "extraction_before_download [] = False"
| "extraction_before_download (Started (ExtractTarGz src dst) # t) = True"
| "extraction_before_download (Completed (DownloadFile url dst) # t) = False"
| "extraction_before_download (e # t) = extraction_before_download t"

section \<open>Challenge 2: \<^verbatim>\<open>parseCSV\<close>\<close>

text \<open>
  A row as the CSV parser emits it with \<^verbatim>\<open>headers: true\<close>: an object whose keys
  are the header line's column names. Reading a key the object lacks gives
  \<^verbatim>\<open>undefined\<close>, here \<open>None\<close>.
\<close>

type_synonym csv_row = "string \<rightharpoonup> string"

record Company =
  name :: "string option"
  url :: "string option"

record parse_state =
  companies :: "Company list"
  parse_promise :: "Company list promise"
  parse_uncaught :: "error option"

fun parse_listener :: "parse_state \<Rightarrow> csv_row stream_event \<Rightarrow> parse_state" where
  "parse_listener st (Data row) =
     st\<lparr>companies := companies st @ [\<lparr>name = row ''Company Name'', url = row ''YC URL''\<rparr>]\<rparr>"
| "parse_listener st End = st\<lparr>parse_promise := resolve (companies st) (parse_promise st)\<rparr>"
| "parse_listener st (ParserError err) = st\<lparr>parse_promise := reject err (parse_promise st)\<rparr>"
| "parse_listener st (SourceError err) = st\<lparr>parse_uncaught := Some err\<rparr>"

text \<open>Once an exception is uncaught the process is gone and no listener runs.\<close>

definition parse_step :: "parse_state \<Rightarrow> csv_row stream_event \<Rightarrow> parse_state" where
  "parse_step st ev = (if parse_uncaught st \<noteq> None then st else parse_listener st ev)"

text \<open>
  \<^verbatim>\<open>parseCSV(filePath)\<close>, on what the parser of the file emits. The promise is
  fulfilled with the array \<^verbatim>\<open>companies\<close> as it is at the \<^verbatim>\<open>end\<close> event, after
  which a parser emits no row.
\<close>

definition parseCSV :: "csv_row stream_event list \<Rightarrow> parse_state" where
  "parseCSV events =
     foldl parse_step \<lparr>companies = [], parse_promise = Pending, parse_uncaught = None\<rparr> events"

text \<open>A row decodes against the expected header set when it has both columns.\<close>

definition decodes :: "csv_row \<Rightarrow> bool" where
  "decodes row = (row ''Company Name'' \<noteq> None \<and> row ''YC URL'' \<noteq> None)"

section \<open>Challenge 2: \<^verbatim>\<open>scrapeCompanyPage\<close>\<close>

text \<open>
  Strings are lists of code units below 256. Of the code units that
  \<^verbatim>\<open>String.prototype.trim\<close> and \<^verbatim>\<open>parseInt\<close> treat as white space, these are
  in that range: tab, line feed, vertical tab, form feed, carriage return, space and the
  no-break space.
\<close>

definition is_ws :: "char \<Rightarrow> bool" where
  "is_ws c = (of_char c \<in> {9, 10, 11, 12, 13, 32, 160 :: nat})"

definition trim :: "string \<Rightarrow> string" where
  "trim s = rev (dropWhile is_ws (rev (dropWhile is_ws s)))"

definition is_digit :: "char \<Rightarrow> bool" where
  "is_digit c = (48 \<le> (of_char c :: nat) \<and> (of_char c :: nat) \<le> 57)"

text \<open>
  A JavaScript number, as far as \<^verbatim>\<open>parseInt\<close> can return one: \<^verbatim>\<open>NaN\<close>; an
  integer of magnitude at most \<open>2^53\<close>, which the double holds exactly; or
  (\<open>Rounded negative\<close>) the result for a longer digit run, which is the double the
  runtime rounds the run to, or an infinity, with the sign given. Which double that is
  is the runtime's affair and not modelled; it need not be the integer that was written.
\<close>

datatype number = NaN | Exact int | Rounded bool

text \<open>The mathematical value of a run of decimal digits.\<close>

definition digits_value :: "string \<Rightarrow> int" where
  "digits_value ds = foldl (\<lambda>acc c. 10 * acc + (int (of_char c) - 48)) 0 ds"

text \<open>
  \<^verbatim>\<open>parseInt(s, 10)\<close>: skip leading white space, take one sign, then the longest
  run of decimal digits (\<open>digit_run\<close>); \<^verbatim>\<open>NaN\<close> when that run is empty.
\<close>

definition minus_signed :: "string \<Rightarrow> bool" where
  "minus_signed s = (let S = dropWhile is_ws s in S \<noteq> [] \<and> hd S = CHR ''-'')"

definition digit_run :: "string \<Rightarrow> string" where
  "digit_run s =
     (let S = dropWhile is_ws s;
          signed = (S \<noteq> [] \<and> (hd S = CHR ''-'' \<or> hd S = CHR ''+''))
      in takeWhile is_digit (if signed then tl S else S))"

definition parseInt10 :: "string \<Rightarrow> number" where
  "parseInt10 s =
     (let Z = digit_run s in
      if Z = [] then NaN
      else if digits_value Z \<le> 2 ^ 53
      then Exact (if minus_signed s then - digits_value Z else digits_value Z)
      else Rounded (minus_signed s))"

text \<open>
  \<^verbatim>\<open>s || d\<close> on a string (the empty string is falsy) and \<^verbatim>\<open>n || 0\<close> on the
  result of \<^verbatim>\<open>parseInt\<close> (\<^verbatim>\<open>NaN\<close> and both zeros are falsy).
\<close>

definition or_string :: "string \<Rightarrow> string \<Rightarrow> string" where
  "or_string s d = (if s = [] then d else s)"

definition or_zero :: "number \<Rightarrow> number" where
  "or_zero n = (case n of NaN \<Rightarrow> Exact 0 | Exact v \<Rightarrow> Exact v | Rounded negative \<Rightarrow> Rounded negative)"

definition below_zero :: "number \<Rightarrow> bool" where
  "below_zero n = (case n of NaN \<Rightarrow> False | Exact v \<Rightarrow> v < 0 | Rounded negative \<Rightarrow> negative)"

text \<open>
  What the selection engine finds on a page, as far as the handler looks: a selection
  is the list of the text contents of the elements it matched, in document order, and
  \<^verbatim>\<open>.text()\<close> joins them, so the text of an empty selection is the empty string.
  For each \<^verbatim>\<open>div.founders div.founder\<close> element the page gives the selection of its
  \<^verbatim>\<open>h3\<close> descendants, and for each \<^verbatim>\<open>div.jobs div.job\<close> element those of its
  \<^verbatim>\<open>h4\<close> and \<^verbatim>\<open>span.location\<close> descendants.
\<close>

type_synonym selection = "string list"

definition sel_text :: "selection \<Rightarrow> string" where
  "sel_text els = concat els"

record page =
  h1_company_name :: selection
  span_founded :: selection
  p_description :: selection
  span_team_size :: selection
  founder_divs :: "selection list"
  job_divs :: "(selection \<times> selection) list"

record Founder =
  name :: string

record Job =
  title :: string
  location :: string

record CompanyData =
  name :: string
  founded :: string
  description :: string
  teamSize :: number
  jobs :: "Job list"
  founders :: "Founder list"

fun push_founders :: "selection list \<Rightarrow> Founder list" where
  "push_founders [] = []"
| "push_founders (h3 # els) =
     (let founderName = trim (sel_text h3) in
      if founderName \<noteq> [] then \<lparr>Founder.name = founderName\<rparr> # push_founders els
      else push_founders els)"

fun push_jobs :: "(selection \<times> selection) list \<Rightarrow> Job list" where
  "push_jobs [] = []"
| "push_jobs ((h4, span_location) # els) =
     (let title = trim (sel_text h4); location = trim (sel_text span_location) in
      if title \<noteq> [] \<or> location \<noteq> [] then \<lparr>title = title, location = location\<rparr> # push_jobs els
      else push_jobs els)"

definition requestHandler :: "page \<Rightarrow> CompanyData" where
  "requestHandler pg =
     \<lparr>CompanyData.name = or_string (trim (sel_text (h1_company_name pg))) ''N/A'',
      founded = or_string (trim (sel_text (span_founded pg))) ''N/A'',
      description = or_string (trim (sel_text (p_description pg))) ''N/A'',
      teamSize = or_zero (parseInt10 (sel_text (span_team_size pg))),
      jobs = push_jobs (job_divs pg),
      founders = push_founders (founder_divs pg)\<rparr>"

text \<open>
  What one crawler run does with the promise of \<^verbatim>\<open>scrapeCompanyPage\<close>: it calls
  the request handler on the fetched page, or its \<^verbatim>\<open>run\<close> promise rejects, or it
  ends without either (then nothing settles the promise). The handler's selection and
  string calls are total, so its \<^verbatim>\<open>catch\<close> branch is not reached.

  A crawler retries a request that fails (no answer, refused connection, error status)
  and then gives it up without rejecting \<^verbatim>\<open>run\<close>: a failed fetch is
  \<open>RunEndsUnhandled\<close>. Every \<^verbatim>\<open>scrapeCompanyPage\<close> call builds its crawler
  without a request queue of its own, so the crawlers of one \<^verbatim>\<open>processCompanyList\<close>
  run share the default queue: the page a crawler's handler is called on is the page of
  a request it took from that queue, which another company's call may have added, and a
  crawler that finds the queue empty ends without calling its handler. Which crawler
  handles which page is therefore the environment's.
\<close>

datatype crawl =
    HandlerRuns page
  | RunRejects error
  | RunEndsUnhandled

definition scrapeCompanyPage :: "crawl \<Rightarrow> CompanyData promise" where
  "scrapeCompanyPage c =
     (case c of
        HandlerRuns pg \<Rightarrow> resolve (requestHandler pg) Pending
      | RunRejects err \<Rightarrow> reject err Pending
      | RunEndsUnhandled \<Rightarrow> Pending)"

section \<open>Challenge 2: \<^verbatim>\<open>processCompanyList\<close>\<close>

text \<open>
  \<^verbatim>\<open>Promise.all\<close> over promises that each settle at a time of the run (or never):
  rejected with the reason of the rejection that comes first, fulfilled with the values
  in the order of the promises when all are fulfilled, pending otherwise.
\<close>

fun earliest_rejection :: "(nat \<times> 'a promise) list \<Rightarrow> (nat \<times> error) option" where
  "earliest_rejection [] = None"
| "earliest_rejection ((t, Rejected err) # ps) =
     (case earliest_rejection ps of
        None \<Rightarrow> Some (t, err)
      | Some (t', err') \<Rightarrow> if t' < t then Some (t', err') else Some (t, err))"
| "earliest_rejection (p # ps) = earliest_rejection ps"

fun all_fulfilled :: "'a promise list \<Rightarrow> 'a list option" where
  "all_fulfilled [] = Some []"
| "all_fulfilled (Fulfilled v # ps) =
     (case all_fulfilled ps of None \<Rightarrow> None | Some vs \<Rightarrow> Some (v # vs))"
| "all_fulfilled (p # ps) = None"

definition promise_all :: "(nat \<times> 'a promise) list \<Rightarrow> 'a list promise" where
  "promise_all ps =
     (case earliest_rejection ps of
        Some (t, err) \<Rightarrow> Rejected err
      | None \<Rightarrow> (case all_fulfilled (map snd ps) of
                   Some vs \<Rightarrow> Fulfilled vs
                 | None \<Rightarrow> Pending))"

text \<open>
  The output side: the directories and the JSON documents on disk (a document is the
  array that was serialised), and how often \<^verbatim>\<open>writeToFile\<close> was called.
\<close>

record out_state =
  out_dirs :: "path set"
  out_files :: "path \<rightharpoonup> CompanyData list"
  writeToFile_calls :: nat

definition writeToFile ::
  "CompanyData list \<Rightarrow> path \<Rightarrow> error option \<Rightarrow> error option \<Rightarrow> out_state \<Rightarrow> unit promise \<times> out_state" where
  "writeToFile data outputPath ensureDirErr writeJsonErr st =
     (let st0 = st\<lparr>writeToFile_calls := Suc (writeToFile_calls st)\<rparr> in
      case ensureDirErr of
        Some err \<Rightarrow> (Rejected err, st0)
      | None \<Rightarrow>
          (let st1 = st0\<lparr>out_dirs := insert ''out'' (out_dirs st0)\<rparr> in
           case writeJsonErr of
             Some err \<Rightarrow> (Rejected err, st1)
           | None \<Rightarrow> (Fulfilled (), st1\<lparr>out_files := (out_files st1)(outputPath \<mapsto> data)\<rparr>)))"

text \<open>
  The environment of one \<^verbatim>\<open>processCompanyList\<close> run: what the parser of
  \<^verbatim>\<open>inputs/companies.csv\<close> emits, what the crawler started for the \<open>i\<close>-th company
  does and when its promise settles, and whether the two file operations fail.
\<close>

record scrape_env =
  csv_events :: "csv_row stream_event list"
  crawl_of :: "nat \<Rightarrow> string option \<Rightarrow> crawl"
  settles_at :: "nat \<Rightarrow> nat"
  ensureDir_err :: "error option"
  writeJson_err :: "error option"

definition processCompanyList :: "scrape_env \<Rightarrow> out_state \<Rightarrow> unit promise \<times> out_state" where
  "processCompanyList env st =
     (let parsed = parseCSV (csv_events env) in
      if parse_uncaught parsed \<noteq> None then (Pending, st)
      else
        (case parse_promise parsed of
           Pending \<Rightarrow> (Pending, st)
         | Rejected err \<Rightarrow> (Rejected err, st)
         | Fulfilled companyList \<Rightarrow>
             (let companyDataPromises =
                    map (\<lambda>(i, company). (settles_at env i, scrapeCompanyPage (crawl_of env i (url company))))
                      (enumerate 0 companyList)
              in case promise_all companyDataPromises of
                   Pending \<Rightarrow> (Pending, st)
                 | Rejected err \<Rightarrow> (Rejected err, st)
                 | Fulfilled companyData \<Rightarrow>
                     writeToFile companyData ''out/scraped.json''
                       (ensureDir_err env) (writeJson_err env) st)))"

section \<open>Theorems: \<^verbatim>\<open>downloadFile\<close>\<close>

lemma dl_files_foldl_absent:
  "dl_files st dest = None \<Longrightarrow>
   dl_files (foldl (dl_step u dest) st events) dest = None"
proof (induction events arbitrary: st)
  case Nil
  then show ?case by simp
next
  case (Cons ev events)
  have "dl_files (dl_step u dest st ev) dest = None"
    using Cons.prems by (cases ev) (auto simp: unlink_def split: option.splits)
  then show ?case using Cons.IH by simp
qed

lemma dl_files_foldl_deleted:
  "dl_files st dest \<noteq> None \<Longrightarrow>
   (dl_files (foldl (dl_step u dest) st events) dest = None)
     = list_ex deleting events"
proof (induction events arbitrary: st)
  case Nil
  then show ?case by simp
next
  case (Cons ev events)
  show ?case
  proof (cases "deleting ev")
    case True
    then obtain err where ev: "ev = RequestError err None"
      by (cases ev rule: deleting.cases) auto
    have "dl_files (dl_step u dest st ev) dest = None"
      using Cons.prems by (auto simp: ev unlink_def)
    then show ?thesis using True by (simp add: dl_files_foldl_absent)
  next
    case False
    have "dl_files (dl_step u dest st ev) dest \<noteq> None"
      using Cons.prems False
      by (cases ev rule: deleting.cases) (auto simp: unlink_def split: option.splits)
    then show ?thesis using Cons.IH False by simp
  qed
qed

lemma downloadFile_deleted_iff:
  "(dl_files (downloadFile u dest files events) dest = None) = list_ex deleting events"
  unfolding downloadFile_def by (rule dl_files_foldl_deleted) simp

lemma dl_body_promise:
  "dl_promise (foldl (dl_step u dest) st (map BodyData chunks)) = dl_promise st"
  by (induction chunks arbitrary: st) (auto split: option.splits)

lemma dl_body_present:
  "dl_files st dest \<noteq> None \<Longrightarrow>
   dl_files (foldl (dl_step u dest) st (map BodyData chunks)) dest \<noteq> None"
  by (induction chunks arbitrary: st) (auto split: option.splits)

lemma downloadFile_snoc:
  "downloadFile u dest files (events @ [ev]) = dl_step u dest (downloadFile u dest files events) ev"
  by (simp add: downloadFile_def)

lemma downloadFile_streaming_promise:
  "dl_promise (downloadFile u dest files (Response 200 # map BodyData chunks)) = Pending"
  by (simp add: downloadFile_def dl_body_promise)

lemma downloadFile_streaming_present:
  "dl_files (downloadFile u dest files (Response 200 # map BodyData chunks)) dest \<noteq> None"
  unfolding downloadFile_def by (simp add: dl_body_present)

lemma dl_step_request_error_deleted:
  "dl_promise st = Pending \<Longrightarrow> dl_files st dest \<noteq> None \<Longrightarrow>
   dl_promise (dl_step u dest st (RequestError err None)) = Rejected err
   \<and> dl_files (dl_step u dest st (RequestError err None)) dest = None"
  by (auto simp: unlink_def reject_def)

lemma dl_step_request_error_unlink_fails:
  "dl_promise st = Pending \<Longrightarrow>
   dl_promise (dl_step u dest st (RequestError err (Some unlinkErr))) = Rejected unlinkErr
   \<and> dl_files (dl_step u dest st (RequestError err (Some unlinkErr))) = dl_files st"
  by (auto simp: unlink_def reject_def)

lemma dl_body_content:
  "dl_piping st \<Longrightarrow> dl_files st dest = Some written \<Longrightarrow>
   dl_files (foldl (dl_step u dest) st (map BodyData chunks)) dest = Some (written @ concat chunks)"
  by (induction chunks arbitrary: st written) simp_all

text \<open>
  What holds of the failure handling. A response whose status is not 200 rejects the
  promise with the error built from the url and the status, and the destination file
  stays on disk, empty as \<^verbatim>\<open>createWriteStream\<close> left it. A request error whose
  unlink goes through, before any response or while the body of a 200 response is being
  written, rejects with that error and leaves no file at the destination. Whatever the
  events of a run are, the destination file is gone at its end exactly when one of them
  was a request error whose unlink went through.
\<close>

lemma downloadFile_status_and_request_errors:
  "(statusCode \<noteq> 200 \<longrightarrow>
      dl_promise (downloadFile u dest files [Response statusCode]) = Rejected (FailedToGet u statusCode)
      \<and> dl_files (downloadFile u dest files [Response statusCode]) dest = Some [])
   \<and> dl_promise (downloadFile u dest files [RequestError err None]) = Rejected err
   \<and> dl_files (downloadFile u dest files [RequestError err None]) dest = None
   \<and> dl_promise (downloadFile u dest files (Response 200 # map BodyData chunks @ [RequestError err None]))
       = Rejected err
   \<and> dl_files (downloadFile u dest files (Response 200 # map BodyData chunks @ [RequestError err None])) dest
       = None
   \<and> ((dl_files (downloadFile u dest files events) dest = None) = list_ex deleting events)"
proof -
  have status: "statusCode \<noteq> 200 \<longrightarrow>
      dl_promise (downloadFile u dest files [Response statusCode]) = Rejected (FailedToGet u statusCode)
      \<and> dl_files (downloadFile u dest files [Response statusCode]) dest = Some []"
    by (simp add: downloadFile_def reject_def)
  have early: "dl_promise (downloadFile u dest files [RequestError err None]) = Rejected err
      \<and> dl_files (downloadFile u dest files [RequestError err None]) dest = None"
    by (simp add: downloadFile_def unlink_def reject_def)
  have "downloadFile u dest files (Response 200 # map BodyData chunks @ [RequestError err None])
      = dl_step u dest (downloadFile u dest files (Response 200 # map BodyData chunks)) (RequestError err None)"
    using downloadFile_snoc [of u dest files "Response 200 # map BodyData chunks"] by simp
  then have late:
    "dl_promise (downloadFile u dest files (Response 200 # map BodyData chunks @ [RequestError err None]))
       = Rejected err
     \<and> dl_files (downloadFile u dest files (Response 200 # map BodyData chunks @ [RequestError err None])) dest
       = None"
    using dl_step_request_error_deleted
      [OF downloadFile_streaming_promise downloadFile_streaming_present] by simp
  show ?thesis
    using status early late downloadFile_deleted_iff [of u dest files events] by blast
qed

text \<open>
  C5. The connection of a 200 response is closed while the body is being written, and
  the client reports it on the response: a transport failure after the write stream
  was opened and before it finished. No handler runs. The promise stays pending, it is
  not rejected with a network error, and the destination keeps the part of the body
  that was written, it is not deleted.
\<close>

theorem downloadFile_aborted_body_keeps_partial_file:
  "dl_promise (downloadFile u dest files (Response 200 # map BodyData chunks @ [BodyAborted])) = Pending
   \<and> dl_files (downloadFile u dest files (Response 200 # map BodyData chunks @ [BodyAborted])) dest
       = Some (concat chunks)"
proof -
  have run: "downloadFile u dest files (Response 200 # map BodyData chunks @ [BodyAborted])
      = downloadFile u dest files (Response 200 # map BodyData chunks)"
    using downloadFile_snoc [of u dest files "Response 200 # map BodyData chunks" BodyAborted]
    by simp
  have content: "dl_files (downloadFile u dest files (Response 200 # map BodyData chunks)) dest
      = Some (concat chunks)"
    unfolding downloadFile_def
    using dl_body_content
      [of "\<lparr>dl_files = files(dest \<mapsto> []), dl_promise = Pending, dl_piping = True\<rparr>" dest "[]" u chunks]
    by simp
  show ?thesis
    unfolding run using downloadFile_streaming_promise [of u dest files chunks] content by simp
qed

text \<open>
  C10. When the request fails and the unlink of the destination fails too, the promise
  is rejected with the unlink's error, not with the request's, and the file stays:
  before any response, and while the body of a 200 response is being written.
\<close>

theorem downloadFile_unlink_error_masks_request_error:
  "dl_promise (downloadFile u dest files [RequestError err (Some unlinkErr)]) = Rejected unlinkErr
   \<and> dl_promise (downloadFile u dest files
        (Response 200 # map BodyData chunks @ [RequestError err (Some unlinkErr)])) = Rejected unlinkErr
   \<and> dl_files (downloadFile u dest files
        (Response 200 # map BodyData chunks @ [RequestError err (Some unlinkErr)])) dest \<noteq> None"
proof -
  have early: "dl_promise (downloadFile u dest files [RequestError err (Some unlinkErr)]) = Rejected unlinkErr"
    by (simp add: downloadFile_def unlink_def reject_def)
  have "downloadFile u dest files (Response 200 # map BodyData chunks @ [RequestError err (Some unlinkErr)])
      = dl_step u dest (downloadFile u dest files (Response 200 # map BodyData chunks))
          (RequestError err (Some unlinkErr))"
    using downloadFile_snoc [of u dest files "Response 200 # map BodyData chunks"] by simp
  then have late:
    "dl_promise (downloadFile u dest files
        (Response 200 # map BodyData chunks @ [RequestError err (Some unlinkErr)])) = Rejected unlinkErr
     \<and> dl_files (downloadFile u dest files
        (Response 200 # map BodyData chunks @ [RequestError err (Some unlinkErr)])) dest \<noteq> None"
    using dl_step_request_error_unlink_fails [OF downloadFile_streaming_promise]
      downloadFile_streaming_present [of u dest files chunks]
    by simp
  show ?thesis using early late by blast
qed

section \<open>Theorems: \<^verbatim>\<open>processCSV\<close>\<close>

lemma csv_feed_partial:
  "csv_uncaught st = None \<Longrightarrow> length (rows st) + length xs < 100 \<Longrightarrow>
   foldl (csv_step t) st (map (\<lambda>r. Stream (Data r)) xs) = st\<lparr>rows := rows st @ xs\<rparr>"
proof (induction xs arbitrary: st)
  case Nil
  then show ?case by simp
next
  case (Cons x xs)
  let ?st1 = "st\<lparr>rows := rows st @ [x]\<rparr>"
  have step: "csv_step t st (Stream (Data x)) = ?st1"
    using Cons.prems by (simp add: csv_step_def Let_def)
  have "foldl (csv_step t) ?st1 (map (\<lambda>r. Stream (Data r)) xs) = ?st1\<lparr>rows := rows ?st1 @ xs\<rparr>"
    using Cons.prems by (intro Cons.IH) simp_all
  then show ?case using step by simp
qed

lemma csv_feed_fill:
  assumes "csv_uncaught st = None" and "length (rows st) + length xs = 99"
  shows "foldl (csv_step t) st (map (\<lambda>r. Stream (Data r)) (xs @ [x]))
         = st\<lparr>rows := [],
               calls := calls st @ [\<lparr>ins_table = t, ins_values = RowsArray, ins_awaited = False\<rparr>],
               seen_at_call := seen_at_call st @ [rows st @ xs @ [x]]\<rparr>"
proof -
  have "foldl (csv_step t) st (map (\<lambda>r. Stream (Data r)) xs) = st\<lparr>rows := rows st @ xs\<rparr>"
    using assms by (intro csv_feed_partial) simp_all
  then show ?thesis using assms by (simp add: csv_step_def Let_def issue_insert_def)
qed

lemma csv_feed_batch:
  assumes "csv_uncaught st = None" and "rows st = []" and "length xs = 100"
  shows "foldl (csv_step t) st (map (\<lambda>r. Stream (Data r)) xs)
         = st\<lparr>rows := [],
               calls := calls st @ [\<lparr>ins_table = t, ins_values = RowsArray, ins_awaited = False\<rparr>],
               seen_at_call := seen_at_call st @ [xs]\<rparr>"
proof -
  from assms(3) have "xs \<noteq> []" by auto
  then obtain ys y where xs: "xs = ys @ [y]" by (metis rev_exhaust)
  with assms have "length (rows st) + length ys = 99" by simp
  from csv_feed_fill [OF assms(1) this, of t y] show ?thesis using xs assms(2) by simp
qed

lemma csv_feed_one_batch_and_rest:
  fixes xs :: "'r list"
  assumes "100 \<le> length xs" and "length xs < 200"
  shows "foldl (csv_step t)
           \<lparr>rows = [], calls = [], seen_at_call = [], settled = [], store = db,
            csv_promise = Pending, csv_uncaught = None\<rparr>
           (map (\<lambda>r. Stream (Data r)) xs)
       = \<lparr>rows = drop 100 xs,
          calls = [\<lparr>ins_table = t, ins_values = RowsArray, ins_awaited = False\<rparr>],
          seen_at_call = [take 100 xs], settled = [], store = db,
          csv_promise = Pending, csv_uncaught = None\<rparr>"
proof -
  let ?D = "map (\<lambda>r. Stream (Data r))"
  let ?init = "\<lparr>rows = [], calls = [], seen_at_call = [], settled = [], store = db,
        csv_promise = Pending, csv_uncaught = None\<rparr> :: 'r csv_state"
  have a: "foldl (csv_step t) ?init (?D (take 100 xs)) = ?init\<lparr>rows := [],
               calls := calls ?init @ [\<lparr>ins_table = t, ins_values = RowsArray, ins_awaited = False\<rparr>],
               seen_at_call := seen_at_call ?init @ [take 100 xs]\<rparr>" (is "_ = ?s1")
    using assms by (intro csv_feed_batch) simp_all
  have b: "foldl (csv_step t) ?s1 (?D (drop 100 xs)) = ?s1\<lparr>rows := rows ?s1 @ drop 100 xs\<rparr>" (is "_ = ?s2")
    using assms by (intro csv_feed_partial) simp_all
  have "foldl (csv_step t) ?init (?D (take 100 xs @ drop 100 xs)) = ?s2"
    using a b by (simp only: map_append foldl_append)
  then show ?thesis by simp
qed

lemma csv_feed_two_batches_and_rest:
  fixes xs :: "'r list"
  assumes "200 \<le> length xs" and "length xs < 300"
  shows "foldl (csv_step t)
           \<lparr>rows = [], calls = [], seen_at_call = [], settled = [], store = db,
            csv_promise = Pending, csv_uncaught = None\<rparr>
           (map (\<lambda>r. Stream (Data r)) xs)
       = \<lparr>rows = drop 200 xs,
          calls = [\<lparr>ins_table = t, ins_values = RowsArray, ins_awaited = False\<rparr>,
                   \<lparr>ins_table = t, ins_values = RowsArray, ins_awaited = False\<rparr>],
          seen_at_call = [take 100 xs, take 100 (drop 100 xs)], settled = [], store = db,
          csv_promise = Pending, csv_uncaught = None\<rparr>"
proof -
  let ?D = "map (\<lambda>r. Stream (Data r))"
  let ?init = "\<lparr>rows = [], calls = [], seen_at_call = [], settled = [], store = db,
        csv_promise = Pending, csv_uncaught = None\<rparr> :: 'r csv_state"
  have split: "xs = take 100 xs @ take 100 (drop 100 xs) @ drop 200 xs"
    by (metis append_take_drop_id drop_drop numeral_Bit0 add.commute
        numeral_plus_numeral semiring_norm(2) append_assoc)
  have a: "foldl (csv_step t) ?init (?D (take 100 xs)) = ?init\<lparr>rows := [],
               calls := calls ?init @ [\<lparr>ins_table = t, ins_values = RowsArray, ins_awaited = False\<rparr>],
               seen_at_call := seen_at_call ?init @ [take 100 xs]\<rparr>" (is "_ = ?s1")
    using assms by (intro csv_feed_batch) simp_all
  have b: "foldl (csv_step t) ?s1 (?D (take 100 (drop 100 xs))) = ?s1\<lparr>rows := [],
               calls := calls ?s1 @ [\<lparr>ins_table = t, ins_values = RowsArray, ins_awaited = False\<rparr>],
               seen_at_call := seen_at_call ?s1 @ [take 100 (drop 100 xs)]\<rparr>" (is "_ = ?s2")
    using assms by (intro csv_feed_batch) simp_all
  have c: "foldl (csv_step t) ?s2 (?D (drop 200 xs)) = ?s2\<lparr>rows := rows ?s2 @ drop 200 xs\<rparr>" (is "_ = ?s3")
    using assms by (intro csv_feed_partial) simp_all
  have "foldl (csv_step t) ?init (?D xs) = ?s3"
    using a b c by (subst split) (simp only: map_append foldl_append)
  then show ?thesis by simp
qed

lemma processCSV_one_batch_and_rest:
  "100 \<le> length xs \<Longrightarrow> length xs < 200 \<Longrightarrow>
   processCSV t db (map (\<lambda>r. Stream (Data r)) xs @ events)
   = foldl (csv_step t)
       \<lparr>rows = drop 100 xs,
        calls = [\<lparr>ins_table = t, ins_values = RowsArray, ins_awaited = False\<rparr>],
        seen_at_call = [take 100 xs], settled = [], store = db,
        csv_promise = Pending, csv_uncaught = None\<rparr>
       events"
  by (simp add: processCSV_def csv_feed_one_batch_and_rest)

text \<open>
  C3. A CSV of exactly 250 rows: three insert calls are issued, and at the moments of
  the calls the array holds rows 1 to 100, 101 to 200 and 201 to 250. The two calls made
  from the \<^verbatim>\<open>data\<close> listener are not awaited, and the array they were handed is
  empty as soon as the listener returns (shown here for the first). In the run where the
  three inserts are carried out after the \<^verbatim>\<open>end\<close> event, each succeeding, the
  promise is fulfilled and the table has received the last 50 rows three times: 150
  rows, not the 250 of the file. In the run where the awaited insert is carried out
  first, the promise is fulfilled while the table has received 50 rows and the two other
  inserts are outstanding.
\<close>

theorem processCSV_250_rows_table_contents:
  "length xs = 250 \<Longrightarrow>
   (let issued = processCSV t db (map (\<lambda>r. Stream (Data r)) (take 100 xs));
        st = processCSV t db (map (\<lambda>r. Stream (Data r)) xs @
               [Stream End, InsertSettles 0 None, InsertSettles 1 None, InsertSettles 2 None]);
        early = processCSV t db (map (\<lambda>r. Stream (Data r)) xs @
               [Stream End, InsertSettles 2 None])
    in seen_at_call issued = [take 100 xs]
       \<and> deref issued (ins_values (calls issued ! 0)) = []
       \<and> map length (seen_at_call st) = [100, 100, 50]
       \<and> concat (seen_at_call st) = xs
       \<and> map ins_awaited (calls st) = [False, False, True]
       \<and> csv_promise st = Fulfilled ()
       \<and> store st t = db t @ drop 200 xs @ drop 200 xs @ drop 200 xs
       \<and> csv_promise early = Fulfilled ()
       \<and> settled early = [2]
       \<and> store early t = db t @ drop 200 xs)"
proof -
  assume len: "length xs = 250"
  have split: "xs = take 100 xs @ take 100 (drop 100 xs) @ drop 200 xs"
    by (metis append_take_drop_id drop_drop numeral_Bit0 add.commute
        numeral_plus_numeral semiring_norm(2) append_assoc)
  have ne: "drop 200 xs \<noteq> []" using len by simp
  have cat: "take 100 xs @ take 100 (drop 100 xs) @ drop 200 xs = xs"
    using split by simp
  have first: "processCSV t db (map (\<lambda>r. Stream (Data r)) (take 100 xs))
      = \<lparr>rows = [],
         calls = [\<lparr>ins_table = t, ins_values = RowsArray, ins_awaited = False\<rparr>],
         seen_at_call = [take 100 xs], settled = [], store = db,
         csv_promise = Pending, csv_uncaught = None\<rparr>"
    using len processCSV_one_batch_and_rest [of "take 100 xs" t db "[]"] by simp
  have issued: "seen_at_call (processCSV t db (map (\<lambda>r. Stream (Data r)) (take 100 xs))) = [take 100 xs]
      \<and> deref (processCSV t db (map (\<lambda>r. Stream (Data r)) (take 100 xs)))
          (ins_values (calls (processCSV t db (map (\<lambda>r. Stream (Data r)) (take 100 xs))) ! 0)) = []"
    unfolding first by (simp add: deref_def)
  have late: "(let st = processCSV t db (map (\<lambda>r. Stream (Data r)) xs @
               [Stream End, InsertSettles 0 None, InsertSettles 1 None, InsertSettles 2 None])
    in map length (seen_at_call st) = [100, 100, 50]
       \<and> concat (seen_at_call st) = xs
       \<and> map ins_awaited (calls st) = [False, False, True]
       \<and> csv_promise st = Fulfilled ()
       \<and> store st t = db t @ drop 200 xs @ drop 200 xs @ drop 200 xs)"
    using len ne cat
    by (simp add: processCSV_def csv_feed_two_batches_and_rest [of xs t db]
        csv_step_def issue_insert_def insert_settles_def deref_def resolve_def Let_def)
  have early: "(let early = processCSV t db (map (\<lambda>r. Stream (Data r)) xs @
               [Stream End, InsertSettles 2 None])
    in csv_promise early = Fulfilled ()
       \<and> settled early = [2]
       \<and> store early t = db t @ drop 200 xs)"
    using len ne
    by (simp add: processCSV_def csv_feed_two_batches_and_rest [of xs t db]
        csv_step_def issue_insert_def insert_settles_def deref_def resolve_def Let_def)
  show ?thesis
    using issued late early unfolding Let_def by blast
qed

theorem processCSV_250_rows_table_contents_witness:
  "length [0..<250] = 250
   \<and> length (store (processCSV ''customers'' (\<lambda>t. []) (map (\<lambda>r. Stream (Data r)) [0..<250] @
               [Stream End, InsertSettles 0 None, InsertSettles 1 None, InsertSettles 2 None]))
        ''customers'') = 150
   \<and> csv_promise (processCSV ''customers'' (\<lambda>t. []) (map (\<lambda>r. Stream (Data r)) [0..<250] @
               [Stream End, InsertSettles 0 None, InsertSettles 1 None, InsertSettles 2 None]))
      = Fulfilled ()"
proof -
  have len: "length [0..<250] = 250" by simp
  show ?thesis
    using len processCSV_250_rows_table_contents [OF len, of "''customers''" "\<lambda>t. []"]
    by (simp add: Let_def)
qed

lemma insert_settles_unawaited_failure:
  "k < length (calls st) \<Longrightarrow> k \<notin> set (settled st) \<Longrightarrow> \<not> ins_awaited (calls st ! k) \<Longrightarrow>
   csv_promise (insert_settles st k (Some err)) = reject err (csv_promise st)"
  by (simp add: insert_settles_def Let_def)

text \<open>
  C4, as stated, fails in its second half: a file of 150 rows has an insert of 100 rows
  that is not awaited (call 0) and an awaited one for the last 50 (call 1). When call 0
  is rejected after the \<^verbatim>\<open>end\<close> event and before call 1 settles, the promise is
  rejected with that error: the rejection is surfaced although it settled after the
  \<^verbatim>\<open>end\<close> event.
\<close>

theorem processCSV_rejection_after_end_is_surfaced:
  "map ins_awaited (calls (processCSV ''customers'' (\<lambda>t. [])
      (map (\<lambda>r. Stream (Data r)) [0..<150] @
         [Stream End, InsertSettles 0 (Some (LibError ''SQLITE_ERROR'')), InsertSettles 1 None])))
     = [False, True]
   \<and> csv_promise (processCSV ''customers'' (\<lambda>t. [])
      (map (\<lambda>r. Stream (Data r)) [0..<150] @
         [Stream End, InsertSettles 0 (Some (LibError ''SQLITE_ERROR'')), InsertSettles 1 None]))
     = Rejected (LibError ''SQLITE_ERROR'')"
proof -
  have len: "100 \<le> length [0..<150]" "length [0..<150] < 200" by simp_all
  show ?thesis
    unfolding processCSV_one_batch_and_rest [OF len]
    by (simp add: csv_step_def issue_insert_def insert_settles_def deref_def
        resolve_def reject_def Let_def)
qed

text \<open>
  C4, amended. There are runs in which an insert that is not awaited is rejected and
  the promise is fulfilled all the same: with exactly 100 rows, when the rejection comes
  after the \<^verbatim>\<open>end\<close> event (nothing is left to insert, so \<^verbatim>\<open>end\<close> resolves at
  once); with more than 100 and fewer than 200 rows, when it comes after the awaited
  insert of the remainder has settled. In the other order (before \<^verbatim>\<open>end\<close>, or
  after \<^verbatim>\<open>end\<close> and before the awaited insert settles) the promise is rejected with
  the insert's error. In any state, the rejection of an insert that is not awaited
  calls \<^verbatim>\<open>reject\<close>, which has an effect exactly while the promise is pending.
\<close>

theorem processCSV_unawaited_rejection_race:
  "(length xs = 100 \<longrightarrow>
      map ins_awaited (calls (processCSV t db (map (\<lambda>r. Stream (Data r)) xs @
          [Stream End, InsertSettles 0 (Some err)]))) = [False]
      \<and> csv_promise (processCSV t db (map (\<lambda>r. Stream (Data r)) xs @
          [Stream End, InsertSettles 0 (Some err)])) = Fulfilled ()
      \<and> csv_promise (processCSV t db (map (\<lambda>r. Stream (Data r)) xs @
          [InsertSettles 0 (Some err), Stream End])) = Rejected err)
   \<and> (100 < length xs \<and> length xs < 200 \<longrightarrow>
      map ins_awaited (calls (processCSV t db (map (\<lambda>r. Stream (Data r)) xs @
          [Stream End, InsertSettles 1 None, InsertSettles 0 (Some err)]))) = [False, True]
      \<and> csv_promise (processCSV t db (map (\<lambda>r. Stream (Data r)) xs @
          [Stream End, InsertSettles 1 None, InsertSettles 0 (Some err)])) = Fulfilled ()
      \<and> csv_promise (processCSV t db (map (\<lambda>r. Stream (Data r)) xs @
          [Stream End, InsertSettles 0 (Some err), InsertSettles 1 None])) = Rejected err)
   \<and> (k < length (calls st) \<and> k \<notin> set (settled st) \<and> \<not> ins_awaited (calls st ! k) \<longrightarrow>
      csv_promise (insert_settles st k (Some err))
        = (if csv_promise st = Pending then Rejected err else csv_promise st))"
proof -
  have exact: "length xs = 100 \<longrightarrow>
      map ins_awaited (calls (processCSV t db (map (\<lambda>r. Stream (Data r)) xs @
          [Stream End, InsertSettles 0 (Some err)]))) = [False]
      \<and> csv_promise (processCSV t db (map (\<lambda>r. Stream (Data r)) xs @
          [Stream End, InsertSettles 0 (Some err)])) = Fulfilled ()
      \<and> csv_promise (processCSV t db (map (\<lambda>r. Stream (Data r)) xs @
          [InsertSettles 0 (Some err), Stream End])) = Rejected err"
    by (simp add: processCSV_one_batch_and_rest csv_step_def issue_insert_def
        insert_settles_def deref_def resolve_def reject_def Let_def)
  have tail: "100 < length xs \<and> length xs < 200 \<longrightarrow>
      map ins_awaited (calls (processCSV t db (map (\<lambda>r. Stream (Data r)) xs @
          [Stream End, InsertSettles 1 None, InsertSettles 0 (Some err)]))) = [False, True]
      \<and> csv_promise (processCSV t db (map (\<lambda>r. Stream (Data r)) xs @
          [Stream End, InsertSettles 1 None, InsertSettles 0 (Some err)])) = Fulfilled ()
      \<and> csv_promise (processCSV t db (map (\<lambda>r. Stream (Data r)) xs @
          [Stream End, InsertSettles 0 (Some err), InsertSettles 1 None])) = Rejected err"
    by (simp add: processCSV_one_batch_and_rest csv_step_def issue_insert_def
        insert_settles_def deref_def resolve_def reject_def Let_def)
  have step: "k < length (calls st) \<and> k \<notin> set (settled st) \<and> \<not> ins_awaited (calls st ! k) \<longrightarrow>
      csv_promise (insert_settles st k (Some err))
        = (if csv_promise st = Pending then Rejected err else csv_promise st)"
    by (cases "csv_promise st") (simp_all add: insert_settles_unawaited_failure reject_def)
  show ?thesis using exact tail step by blast
qed

theorem processCSV_unawaited_rejection_race_witness:
  "length [0..<100] = 100
   \<and> csv_promise (processCSV ''customers'' (\<lambda>t. []) (map (\<lambda>r. Stream (Data r)) [0..<100] @
          [Stream End, InsertSettles 0 (Some (LibError ''SQLITE_ERROR''))])) = Fulfilled ()
   \<and> 100 < length [0..<150] \<and> length [0..<150] < 200
   \<and> csv_promise (processCSV ''customers'' (\<lambda>t. []) (map (\<lambda>r. Stream (Data r)) [0..<150] @
          [Stream End, InsertSettles 1 None, InsertSettles 0 (Some (LibError ''SQLITE_ERROR''))]))
       = Fulfilled ()
   \<and> (0::nat) < length (calls (processCSV ''customers'' (\<lambda>t. []) (map (\<lambda>r. Stream (Data r)) [0..<100])))
   \<and> (0::nat) \<notin> set (settled (processCSV ''customers'' (\<lambda>t. []) (map (\<lambda>r. Stream (Data r)) [0..<100])))
   \<and> \<not> ins_awaited (calls (processCSV ''customers'' (\<lambda>t. []) (map (\<lambda>r. Stream (Data r)) [0..<100])) ! 0)
   \<and> csv_promise (insert_settles
         (processCSV ''customers'' (\<lambda>t. []) (map (\<lambda>r. Stream (Data r)) [0..<100]))
         0 (Some (LibError ''SQLITE_ERROR''))) = Rejected (LibError ''SQLITE_ERROR'')"
proof -
  have len: "100 \<le> length [0..<100]" "length [0..<100] < 200" by simp_all
  have st: "processCSV ''customers'' (\<lambda>t. []) (map (\<lambda>r. Stream (Data r)) [0..<100])
      = \<lparr>rows = drop 100 [0..<100],
         calls = [\<lparr>ins_table = ''customers'', ins_values = RowsArray, ins_awaited = False\<rparr>],
         seen_at_call = [take 100 [0..<100]], settled = [], store = (\<lambda>t. []),
         csv_promise = Pending, csv_uncaught = None\<rparr>"
    using processCSV_one_batch_and_rest [OF len, of "''customers''" "\<lambda>t. []" "[]"] by simp
  show ?thesis
    unfolding st
    using processCSV_unawaited_rejection_race
        [of "[0..<100]" "''customers''" "\<lambda>t. []" "LibError ''SQLITE_ERROR''" 0
            "\<lparr>rows = drop 100 [0..<100],
               calls = [\<lparr>ins_table = ''customers'', ins_values = RowsArray, ins_awaited = False\<rparr>],
               seen_at_call = [take 100 [0..<100]], settled = [], store = (\<lambda>t. []),
               csv_promise = Pending, csv_uncaught = None\<rparr>"]
      processCSV_unawaited_rejection_race
        [of "[0..<150]" "''customers''" "\<lambda>t. []" "LibError ''SQLITE_ERROR''" 0
            "\<lparr>rows = drop 100 [0..<100],
               calls = [\<lparr>ins_table = ''customers'', ins_values = RowsArray, ins_awaited = False\<rparr>],
               seen_at_call = [take 100 [0..<100]], settled = [], store = (\<lambda>t. []),
               csv_promise = Pending, csv_uncaught = None\<rparr>"]
    by simp
qed

section \<open>Theorems: \<^verbatim>\<open>processDataDump\<close>\<close>

text \<open>
  C2. In every run, however the stages settle, the first thing
  \<^verbatim>\<open>processDataDump\<close> does is start an extraction of the archive path, before any
  download has completed (before one has started). When every stage succeeds the order
  is: extraction, directory listing, download, extraction, schema, the two loads, and
  the closing of the connection.
\<close>

theorem processDataDump_extracts_before_download:
  "extraction_before_download (processDataDump dir outcome)
   \<and> processDataDump dir (\<lambda>n. Fulfilled ())
     = [Started (ExtractTarGz (dir @ ''/tmp/dump.tar.gz'') (dir @ ''/tmp'')),
        Completed (ExtractTarGz (dir @ ''/tmp/dump.tar.gz'') (dir @ ''/tmp'')),
        Started (Readdir (dir @ ''/tmp'')),
        Completed (Readdir (dir @ ''/tmp'')),
        Started (DownloadFile ''https://fiber-challenges.s3.amazonaws.com/dump.tar.gz''
                   (dir @ ''/tmp/dump.tar.gz'')),
        Completed (DownloadFile ''https://fiber-challenges.s3.amazonaws.com/dump.tar.gz''
                   (dir @ ''/tmp/dump.tar.gz'')),
        Started (ExtractTarGz (dir @ ''/tmp/dump.tar.gz'') (dir @ ''/tmp'')),
        Completed (ExtractTarGz (dir @ ''/tmp/dump.tar.gz'') (dir @ ''/tmp'')),
        Started (SetupDatabase (dir @ ''/out/database.sqlite'')),
        Completed (SetupDatabase (dir @ ''/out/database.sqlite'')),
        Started (ProcessCSV (dir @ ''/tmp/customers.csv'') ''customers''),
        Completed (ProcessCSV (dir @ ''/tmp/customers.csv'') ''customers''),
        Started (ProcessCSV (dir @ ''/tmp/organizations.csv'') ''organizations''),
        Completed (ProcessCSV (dir @ ''/tmp/organizations.csv'') ''organizations''),
        Started DbDestroy,
        Completed DbDestroy]"
proof -
  have first: "extraction_before_download (processDataDump dir outcome)"
    by (cases "outcome 0") (simp_all add: processDataDump_def Let_def)
  have run: "awaits (\<lambda>n. Fulfilled ()) n stages = concat (map (\<lambda>s. [Started s, Completed s]) stages)"
    for n stages
    by (induction stages arbitrary: n) simp_all
  show ?thesis using first by (simp add: processDataDump_def Let_def run)
qed

section \<open>Theorems: \<^verbatim>\<open>parseCSV\<close>\<close>

lemma parse_promise_rejected_stays:
  "parse_promise st = Rejected err \<Longrightarrow> parse_promise (foldl parse_step st events) = Rejected err"
proof (induction events arbitrary: st)
  case Nil
  then show ?case by simp
next
  case (Cons ev events)
  have "parse_promise (parse_step st ev) = Rejected err"
    using Cons.prems by (cases ev) (simp_all add: parse_step_def resolve_def reject_def)
  then show ?case using Cons.IH by simp
qed

lemma parse_feed_rows:
  "parse_uncaught st = None \<Longrightarrow>
   foldl parse_step st (map Data rs)
   = st\<lparr>companies := companies st
        @ map (\<lambda>row. \<lparr>Company.name = row ''Company Name'', url = row ''YC URL''\<rparr>) rs\<rparr>"
proof (induction rs arbitrary: st)
  case Nil
  then show ?case by simp
next
  case (Cons r rs)
  then show ?case by (simp add: parse_step_def)
qed

lemma parseCSV_rows_then:
  "parseCSV (map Data rs @ events)
   = foldl parse_step
       \<lparr>companies = map (\<lambda>row. \<lparr>Company.name = row ''Company Name'', url = row ''YC URL''\<rparr>) rs,
        parse_promise = Pending, parse_uncaught = None\<rparr>
       events"
  by (simp add: parseCSV_def parse_feed_rows)

lemma parseCSV_rows_end:
  "parseCSV (map Data rs @ [End])
   = \<lparr>companies = map (\<lambda>row. \<lparr>Company.name = row ''Company Name'', url = row ''YC URL''\<rparr>) rs,
      parse_promise = Fulfilled (map (\<lambda>row. \<lparr>Company.name = row ''Company Name'', url = row ''YC URL''\<rparr>) rs),
      parse_uncaught = None\<rparr>"
  by (simp add: parseCSV_rows_then parse_step_def resolve_def)

text \<open>
  C8, as stated, fails: a row that has neither a \<^verbatim>\<open>Company Name\<close> nor a
  \<^verbatim>\<open>YC URL\<close> column (the file's header line names other columns) is pushed like
  any other, as a company whose name and url are undefined, and the promise is
  fulfilled.
\<close>

theorem parseCSV_accepts_row_without_expected_headers:
  "\<not> decodes Map.empty
   \<and> parse_promise (parseCSV [Data Map.empty, End]) = Fulfilled [\<lparr>Company.name = None, url = None\<rparr>]"
  by (simp add: decodes_def parseCSV_def parse_step_def resolve_def)

text \<open>
  C8, amended. When the parser emits an error after any number of rows, the promise is
  rejected with that error, whatever follows. Rows are not checked against an expected
  header set: when the parser ends after its rows, the promise is fulfilled with one
  company per row, in order, whose name and url are what the row has under
  \<^verbatim>\<open>Company Name\<close> and \<^verbatim>\<open>YC URL\<close>, undefined where the row has no such column.
\<close>

theorem parseCSV_parser_error_and_unchecked_rows:
  "parse_promise (parseCSV (map Data rs @ ParserError err # events)) = Rejected err
   \<and> parse_promise (parseCSV (map Data rs @ [End]))
      = Fulfilled (map (\<lambda>row. \<lparr>Company.name = row ''Company Name'', url = row ''YC URL''\<rparr>) rs)"
proof -
  have "parse_promise (parseCSV (map Data rs @ ParserError err # events)) = Rejected err"
    unfolding parseCSV_rows_then
    by (simp add: parse_step_def reject_def parse_promise_rejected_stays)
  then show ?thesis by (simp add: parseCSV_rows_end)
qed

section \<open>Theorems: \<^verbatim>\<open>scrapeCompanyPage\<close>\<close>

text \<open>
  C7. Whatever the page, once the handler runs the promise is fulfilled with a profile:
  no missing element makes it fail. A scalar whose element is missing is
  \<^verbatim>\<open>"N/A"\<close>; the team size is 0 when its element is missing and when
  \<^verbatim>\<open>parseInt\<close> gives \<^verbatim>\<open>NaN\<close>; with no founder blocks the founders are the empty
  list, and likewise the jobs.
\<close>

theorem scrapeCompanyPage_defaults_for_missing_elements:
  "scrapeCompanyPage (HandlerRuns pg) = Fulfilled (requestHandler pg)
   \<and> (h1_company_name pg = [] \<longrightarrow> CompanyData.name (requestHandler pg) = ''N/A'')
   \<and> (span_founded pg = [] \<longrightarrow> founded (requestHandler pg) = ''N/A'')
   \<and> (p_description pg = [] \<longrightarrow> description (requestHandler pg) = ''N/A'')
   \<and> (span_team_size pg = [] \<longrightarrow> teamSize (requestHandler pg) = Exact 0)
   \<and> (parseInt10 (sel_text (span_team_size pg)) = NaN \<longrightarrow> teamSize (requestHandler pg) = Exact 0)
   \<and> (founder_divs pg = [] \<longrightarrow> founders (requestHandler pg) = [])
   \<and> (job_divs pg = [] \<longrightarrow> jobs (requestHandler pg) = [])"
  by (simp add: scrapeCompanyPage_def resolve_def requestHandler_def sel_text_def trim_def
      or_string_def or_zero_def parseInt10_def digit_run_def)

theorem scrapeCompanyPage_defaults_for_missing_elements_witness:
  "h1_company_name \<lparr>h1_company_name = [], span_founded = [], p_description = [],
       span_team_size = [], founder_divs = [], job_divs = []\<rparr> = []
   \<and> parseInt10 (sel_text []) = NaN
   \<and> scrapeCompanyPage (HandlerRuns \<lparr>h1_company_name = [], span_founded = [], p_description = [],
       span_team_size = [], founder_divs = [], job_divs = []\<rparr>)
     = Fulfilled \<lparr>CompanyData.name = ''N/A'', founded = ''N/A'', description = ''N/A'',
         teamSize = Exact 0, jobs = [], founders = []\<rparr>"
  using scrapeCompanyPage_defaults_for_missing_elements
    [of "\<lparr>h1_company_name = [], span_founded = [], p_description = [],
       span_team_size = [], founder_divs = [], job_divs = []\<rparr>"]
  by (simp add: parseInt10_def digit_run_def sel_text_def)

lemma digits_value_nonneg_aux:
  "0 \<le> acc \<Longrightarrow> \<forall>c\<in>set ds. is_digit c \<Longrightarrow>
   0 \<le> foldl (\<lambda>acc c. 10 * acc + (int (of_char c) - 48)) acc ds"
proof (induction ds arbitrary: acc)
  case Nil
  then show ?case by simp
next
  case (Cons d ds)
  have "0 \<le> 10 * acc + (int (of_char d) - 48)"
    using Cons.prems by (simp add: is_digit_def)
  then show ?case using Cons by simp
qed

lemma digits_value_nonneg: "0 \<le> digits_value (digit_run s)"
  unfolding digits_value_def digit_run_def Let_def
  by (rule digits_value_nonneg_aux) (auto dest: set_takeWhileD)

lemma minus_signed_starts:
  "minus_signed s \<Longrightarrow> \<exists>rest. dropWhile is_ws s = CHR ''-'' # rest"
  by (cases "dropWhile is_ws s") (auto simp: minus_signed_def Let_def)

lemma parseInt10_below_zero:
  "below_zero (or_zero (parseInt10 s)) \<Longrightarrow> minus_signed s"
  using digits_value_nonneg [of s]
  by (auto simp: parseInt10_def or_zero_def below_zero_def Let_def split: if_splits)

text \<open>
  C9, as stated, fails: \<^verbatim>\<open>parseInt\<close> reads a sign, so a page whose team-size
  element holds the text \<^verbatim>\<open>-5\<close> gives the profile the team size \<open>-5\<close>.
\<close>

theorem scrapeCompanyPage_negative_teamSize:
  "teamSize (requestHandler \<lparr>h1_company_name = [''Acme''], span_founded = [''2020''],
       p_description = [''Rockets''], span_team_size = [''-5''], founder_divs = [], job_divs = []\<rparr>)
   = Exact (- 5)"
  by (simp add: requestHandler_def sel_text_def or_zero_def parseInt10_def digit_run_def
      minus_signed_def is_ws_def is_digit_def digits_value_def Let_def)

text \<open>
  C9, amended. The team size is 0 when the team-size element is missing and when
  \<^verbatim>\<open>parseInt\<close> reads no digits from its text. When the digit run that
  \<^verbatim>\<open>parseInt\<close> reads has a value of at most \<open>2^53\<close>, the team size is an
  integer, of that magnitude. It is below zero only when the first character of the
  text after leading white space is a minus sign. (Of a longer digit run nothing is
  said but the sign: the number is then a rounded double or an infinity.)
\<close>

theorem scrapeCompanyPage_teamSize_sign:
  "(span_team_size pg = [] \<longrightarrow> teamSize (requestHandler pg) = Exact 0)
   \<and> (digit_run (sel_text (span_team_size pg)) = [] \<longrightarrow> teamSize (requestHandler pg) = Exact 0)
   \<and> (digits_value (digit_run (sel_text (span_team_size pg))) \<le> 2 ^ 53 \<longrightarrow>
        (\<exists>n. teamSize (requestHandler pg) = Exact n
             \<and> \<bar>n\<bar> = digits_value (digit_run (sel_text (span_team_size pg)))))
   \<and> (below_zero (teamSize (requestHandler pg)) \<longrightarrow>
        (\<exists>rest. dropWhile is_ws (sel_text (span_team_size pg)) = CHR ''-'' # rest))"
proof -
  let ?t = "sel_text (span_team_size pg)"
  have val: "teamSize (requestHandler pg) = or_zero (parseInt10 ?t)"
    by (simp add: requestHandler_def)
  have missing: "span_team_size pg = [] \<longrightarrow> teamSize (requestHandler pg) = Exact 0"
    by (simp add: val sel_text_def parseInt10_def digit_run_def or_zero_def)
  have nan: "digit_run ?t = [] \<longrightarrow> teamSize (requestHandler pg) = Exact 0"
    by (simp add: val parseInt10_def or_zero_def)
  have exact: "digits_value (digit_run ?t) \<le> 2 ^ 53 \<longrightarrow>
        (\<exists>n. teamSize (requestHandler pg) = Exact n \<and> \<bar>n\<bar> = digits_value (digit_run ?t))"
    using digits_value_nonneg [of ?t]
    by (auto simp: val parseInt10_def or_zero_def Let_def digits_value_def)
  have neg: "below_zero (teamSize (requestHandler pg)) \<longrightarrow>
        (\<exists>rest. dropWhile is_ws ?t = CHR ''-'' # rest)"
    using parseInt10_below_zero [of ?t] minus_signed_starts [of ?t] by (simp add: val)
  show ?thesis using missing nan exact neg by blast
qed

theorem scrapeCompanyPage_teamSize_sign_witness:
  "span_team_size \<lparr>h1_company_name = [], span_founded = [], p_description = [],
       span_team_size = [], founder_divs = [], job_divs = []\<rparr> = []
   \<and> digit_run (sel_text []) = []
   \<and> teamSize (requestHandler \<lparr>h1_company_name = [], span_founded = [], p_description = [],
       span_team_size = [], founder_divs = [], job_divs = []\<rparr>) = Exact 0
   \<and> digits_value (digit_run '' -12 people'') \<le> 2 ^ 53
   \<and> teamSize (requestHandler \<lparr>h1_company_name = [], span_founded = [], p_description = [],
       span_team_size = ['' -12 people''], founder_divs = [], job_divs = []\<rparr>) = Exact (- 12)
   \<and> below_zero (teamSize (requestHandler \<lparr>h1_company_name = [], span_founded = [], p_description = [],
       span_team_size = ['' -12 people''], founder_divs = [], job_divs = []\<rparr>))
   \<and> (\<exists>rest. dropWhile is_ws (sel_text (span_team_size \<lparr>h1_company_name = [], span_founded = [],
       p_description = [], span_team_size = ['' -12 people''], founder_divs = [], job_divs = []\<rparr>))
         = CHR ''-'' # rest)"
proof -
  have run: "digit_run '' -12 people'' = ''12''"
    by (simp add: digit_run_def is_ws_def is_digit_def Let_def)
  have small: "digits_value (digit_run '' -12 people'') \<le> 2 ^ 53"
    by (simp add: run digits_value_def)
  have val: "teamSize (requestHandler \<lparr>h1_company_name = [], span_founded = [], p_description = [],
       span_team_size = ['' -12 people''], founder_divs = [], job_divs = []\<rparr>) = Exact (- 12)"
    by (simp add: requestHandler_def sel_text_def or_zero_def parseInt10_def run
        minus_signed_def is_ws_def digits_value_def Let_def)
  show ?thesis
    using small val
      scrapeCompanyPage_teamSize_sign
        [of "\<lparr>h1_company_name = [], span_founded = [], p_description = [],
           span_team_size = [], founder_divs = [], job_divs = []\<rparr>"]
      scrapeCompanyPage_teamSize_sign
        [of "\<lparr>h1_company_name = [], span_founded = [], p_description = [],
           span_team_size = ['' -12 people''], founder_divs = [], job_divs = []\<rparr>"]
    by (simp add: below_zero_def sel_text_def digit_run_def)
qed

section \<open>Theorems: \<^verbatim>\<open>processCompanyList\<close>\<close>

lemma earliest_rejection_none:
  "earliest_rejection (map (\<lambda>x. (tm x, Fulfilled (g x))) xs) = None"
  by (induction xs) simp_all

lemma all_fulfilled_values:
  "all_fulfilled (map (\<lambda>x. Fulfilled (g x)) xs) = Some (map g xs)"
  by (induction xs) simp_all

lemma promise_all_fulfilled:
  "promise_all (map (\<lambda>x. (tm x, Fulfilled (g x))) xs) = Fulfilled (map g xs)"
  by (simp add: promise_all_def earliest_rejection_none all_fulfilled_values comp_def)

lemma earliest_rejection_mem:
  "earliest_rejection ps = Some (t, err) \<Longrightarrow> (t, Rejected err) \<in> set ps"
  by (induction ps arbitrary: t err rule: earliest_rejection.induct)
     (auto split: option.splits if_splits)

lemma earliest_rejection_some:
  "(t, Rejected err) \<in> set ps \<Longrightarrow> earliest_rejection ps \<noteq> None"
  by (induction ps rule: earliest_rejection.induct) (auto split: option.splits)

lemma all_fulfilled_mem:
  "all_fulfilled ps = Some vs \<Longrightarrow> p \<in> set ps \<Longrightarrow> \<exists>v. p = Fulfilled v"
  by (induction ps arbitrary: vs rule: all_fulfilled.induct) (auto split: option.splits)

lemma promises_by_index:
  "map (\<lambda>(i, company). F i (url company))
     (enumerate 0 (map (\<lambda>row. \<lparr>Company.name = row ''Company Name'', url = row ''YC URL''\<rparr>) rs))
   = map (\<lambda>i. F i ((rs ! i) ''YC URL'')) [0..<length rs]"
  by (rule nth_equalityI) (simp_all add: nth_enumerate_eq)

lemma processCompanyList_after_parse:
  assumes "csv_events env = map Data rs @ [End]"
  shows "processCompanyList env st
      = (case promise_all
                (map (\<lambda>i. (settles_at env i, scrapeCompanyPage (crawl_of env i ((rs ! i) ''YC URL''))))
                   [0..<length rs]) of
           Pending \<Rightarrow> (Pending, st)
         | Rejected e \<Rightarrow> (Rejected e, st)
         | Fulfilled companyData \<Rightarrow>
             writeToFile companyData ''out/scraped.json'' (ensureDir_err env) (writeJson_err env) st)"
  using promises_by_index
      [of "\<lambda>i u. (settles_at env i, scrapeCompanyPage (crawl_of env i u))" rs]
  by (simp add: processCompanyList_def assms parseCSV_rows_end Let_def)

text \<open>
  What holds of the aggregation. When the parser emits the \<open>N\<close> rows \<open>rs\<close> and ends,
  \<^verbatim>\<open>parseCSV\<close> is fulfilled with \<open>N\<close> companies, the \<open>i\<close>-th made from the
  \<open>i\<close>-th row. When, further, the handler of the \<open>i\<close>-th crawler runs, on a page
  \<open>pages i\<close>, for every \<open>i\<close>, and the two file operations succeed,
  \<^verbatim>\<open>processCompanyList\<close> is fulfilled after one call of \<^verbatim>\<open>writeToFile\<close>, and
  \<^verbatim>\<open>out/scraped.json\<close> holds the array of \<open>N\<close> profiles whose \<open>i\<close>-th entry is
  what the \<open>i\<close>-th crawler's handler made of \<open>pages i\<close>, whatever the order in which
  the promises settled. Nothing here says that \<open>pages i\<close> is the page of the \<open>i\<close>-th
  row's URL.
\<close>

lemma processCompanyList_writes_handler_results:
  assumes "csv_events env = map Data rs @ [End]"
    and "\<forall>i<length rs. crawl_of env i ((rs ! i) ''YC URL'') = HandlerRuns (pages i)"
    and "ensureDir_err env = None" and "writeJson_err env = None"
  shows "parse_promise (parseCSV (csv_events env))
           = Fulfilled (map (\<lambda>row. \<lparr>Company.name = row ''Company Name'', url = row ''YC URL''\<rparr>) rs)
       \<and> length (map (\<lambda>row. \<lparr>Company.name = row ''Company Name'', url = row ''YC URL''\<rparr>) rs)
           = length rs
       \<and> processCompanyList env st
           = (Fulfilled (),
              st\<lparr>writeToFile_calls := Suc (writeToFile_calls st),
                 out_dirs := insert ''out'' (out_dirs st),
                 out_files := (out_files st)(''out/scraped.json'' \<mapsto>
                    map (\<lambda>i. requestHandler (pages i)) [0..<length rs])\<rparr>)
       \<and> length (map (\<lambda>i. requestHandler (pages i)) [0..<length rs]) = length rs"
proof -
  have eq2: "map (\<lambda>i. (settles_at env i, scrapeCompanyPage (crawl_of env i ((rs ! i) ''YC URL''))))
        [0..<length rs]
      = map (\<lambda>i. (settles_at env i, Fulfilled (requestHandler (pages i)))) [0..<length rs]"
    using assms(2) by (intro map_cong) (simp_all add: scrapeCompanyPage_def resolve_def)
  have all: "promise_all
        (map (\<lambda>i. (settles_at env i, scrapeCompanyPage (crawl_of env i ((rs ! i) ''YC URL''))))
           [0..<length rs])
      = Fulfilled (map (\<lambda>i. requestHandler (pages i)) [0..<length rs])"
    by (simp only: eq2 promise_all_fulfilled)
  have parsed: "parse_promise (parseCSV (csv_events env))
           = Fulfilled (map (\<lambda>row. \<lparr>Company.name = row ''Company Name'', url = row ''YC URL''\<rparr>) rs)"
    using assms(1) by (simp add: parseCSV_rows_end)
  have run: "processCompanyList env st
           = (Fulfilled (),
              st\<lparr>writeToFile_calls := Suc (writeToFile_calls st),
                 out_dirs := insert ''out'' (out_dirs st),
                 out_files := (out_files st)(''out/scraped.json'' \<mapsto>
                    map (\<lambda>i. requestHandler (pages i)) [0..<length rs])\<rparr>)"
    using assms(3,4)
    by (simp add: processCompanyList_after_parse [OF assms(1)] all writeToFile_def Let_def)
  show ?thesis using parsed run by simp
qed

lemma promise_all_pending:
  assumes "\<forall>p\<in>set ps. \<forall>e. snd p \<noteq> Rejected e" and "(t, Pending) \<in> set ps"
  shows "promise_all ps = Pending"
proof -
  have none: "earliest_rejection ps = None"
  proof (cases "earliest_rejection ps")
    case None
    then show ?thesis .
  next
    case (Some te)
    then have "(fst te, Rejected (snd te)) \<in> set ps"
      using earliest_rejection_mem [of ps "fst te" "snd te"] by simp
    then show ?thesis using assms(1) by fastforce
  qed
  have "all_fulfilled (map snd ps) = None"
  proof (cases "all_fulfilled (map snd ps)")
    case None
    then show ?thesis .
  next
    case (Some vs)
    have "Pending \<in> set (map snd ps)" using assms(2) by force
    then have "\<exists>v. Pending = Fulfilled v" using all_fulfilled_mem [OF Some] by blast
    then show ?thesis by simp
  qed
  then show ?thesis by (simp add: promise_all_def none)
qed

lemma processCompanyList_unhandled_run_pending:
  assumes "csv_events env = map Data rs @ [End]" and "i < length rs"
    and "crawl_of env i ((rs ! i) ''YC URL'') = RunEndsUnhandled"
    and "\<forall>j<length rs. \<forall>e. crawl_of env j ((rs ! j) ''YC URL'') \<noteq> RunRejects e"
  shows "processCompanyList env st = (Pending, st)"
proof -
  let ?ps = "map (\<lambda>i. (settles_at env i, scrapeCompanyPage (crawl_of env i ((rs ! i) ''YC URL''))))
           [0..<length rs]"
  have norej: "\<forall>p\<in>set ?ps. \<forall>e. snd p \<noteq> Rejected e"
  proof (intro ballI allI)
    fix p e
    assume "p \<in> set ?ps"
    then obtain j where j: "j < length rs"
      and p: "snd p = scrapeCompanyPage (crawl_of env j ((rs ! j) ''YC URL''))"
      by auto
    show "snd p \<noteq> Rejected e"
      using assms(4) j
      by (cases "crawl_of env j ((rs ! j) ''YC URL'')")
         (auto simp: p scrapeCompanyPage_def resolve_def reject_def)
  qed
  have "(settles_at env i, Pending) \<in> set ?ps"
  proof -
    have "(settles_at env i, scrapeCompanyPage (crawl_of env i ((rs ! i) ''YC URL''))) \<in> set ?ps"
      using assms(2) by auto
    then show ?thesis by (simp add: assms(3) scrapeCompanyPage_def)
  qed
  then have "promise_all ?ps = Pending" by (rule promise_all_pending [OF norej])
  then show ?thesis by (simp add: processCompanyList_after_parse [OF assms(1)])
qed

text \<open>
  C1. The file lists Acme, then Beta, and \<^verbatim>\<open>parseCSV\<close> gives the two companies in
  that order. In the first run both pages are fetched and both handlers run, but the
  crawler started for Acme (the first) has taken Beta's request from the queue the
  crawlers share, and the second Acme's: \<^verbatim>\<open>out/scraped.json\<close> receives Beta's
  profile at position 0 and Acme's at position 1. In the second run the first crawler
  has handled its page and the second, finding no request left, ends without calling
  its handler: \<^verbatim>\<open>processCompanyList\<close> stays pending and nothing is written.
\<close>

theorem processCompanyList_profiles_not_in_row_order:
  "map Company.name (companies (parseCSV (map Data
       [[''Company Name'' \<mapsto> ''Acme'', ''YC URL'' \<mapsto> ''https://yc/acme''],
        [''Company Name'' \<mapsto> ''Beta'', ''YC URL'' \<mapsto> ''https://yc/beta'']] @ [End])))
     = [Some ''Acme'', Some ''Beta'']
   \<and> processCompanyList
     \<lparr>csv_events =
        map Data [[''Company Name'' \<mapsto> ''Acme'', ''YC URL'' \<mapsto> ''https://yc/acme''],
                  [''Company Name'' \<mapsto> ''Beta'', ''YC URL'' \<mapsto> ''https://yc/beta'']] @ [End],
      crawl_of = (\<lambda>i u. HandlerRuns
        \<lparr>h1_company_name = [if i = 0 then ''Beta'' else ''Acme''],
         span_founded = [''2020''], p_description = [''Makes things''], span_team_size = [''12''],
         founder_divs = [], job_divs = []\<rparr>),
      settles_at = (\<lambda>i. i),
      ensureDir_err = None, writeJson_err = None\<rparr>
     \<lparr>out_dirs = {}, out_files = Map.empty, writeToFile_calls = 0\<rparr>
   = (Fulfilled (),
      \<lparr>out_dirs = {''out''},
       out_files = [''out/scraped.json'' \<mapsto>
         [\<lparr>CompanyData.name = ''Beta'', founded = ''2020'', description = ''Makes things'',
            teamSize = Exact 12, jobs = [], founders = []\<rparr>,
          \<lparr>CompanyData.name = ''Acme'', founded = ''2020'', description = ''Makes things'',
            teamSize = Exact 12, jobs = [], founders = []\<rparr>]],
       writeToFile_calls = 1\<rparr>)
   \<and> processCompanyList
     \<lparr>csv_events =
        map Data [[''Company Name'' \<mapsto> ''Acme'', ''YC URL'' \<mapsto> ''https://yc/acme''],
                  [''Company Name'' \<mapsto> ''Beta'', ''YC URL'' \<mapsto> ''https://yc/beta'']] @ [End],
      crawl_of = (\<lambda>i u. if i = 0
        then HandlerRuns
          \<lparr>h1_company_name = [''Acme''],
           span_founded = [''2020''], p_description = [''Makes things''], span_team_size = [''12''],
           founder_divs = [], job_divs = []\<rparr>
        else RunEndsUnhandled),
      settles_at = (\<lambda>i. i),
      ensureDir_err = None, writeJson_err = None\<rparr>
     \<lparr>out_dirs = {}, out_files = Map.empty, writeToFile_calls = 0\<rparr>
   = (Pending, \<lparr>out_dirs = {}, out_files = Map.empty, writeToFile_calls = 0\<rparr>)"
proof -
  let ?rs = "[[''Company Name'' \<mapsto> ''Acme'', ''YC URL'' \<mapsto> ''https://yc/acme''],
              [''Company Name'' \<mapsto> ''Beta'', ''YC URL'' \<mapsto> ''https://yc/beta'']]"
  let ?pg = "\<lambda>i::nat. \<lparr>h1_company_name = [if i = 0 then ''Beta'' else ''Acme''],
         span_founded = [''2020''], p_description = [''Makes things''], span_team_size = [''12''],
         founder_divs = [], job_divs = []\<rparr>"
  let ?swapped = "\<lparr>csv_events = map Data ?rs @ [End],
      crawl_of = (\<lambda>i u. HandlerRuns (?pg i)),
      settles_at = (\<lambda>i. i),
      ensureDir_err = None, writeJson_err = None\<rparr>"
  let ?stolen = "\<lparr>csv_events = map Data ?rs @ [End],
      crawl_of = (\<lambda>i u. if i = 0
        then HandlerRuns
          \<lparr>h1_company_name = [''Acme''],
           span_founded = [''2020''], p_description = [''Makes things''], span_team_size = [''12''],
           founder_divs = [], job_divs = []\<rparr>
        else RunEndsUnhandled),
      settles_at = (\<lambda>i. i),
      ensureDir_err = None, writeJson_err = None\<rparr>"
  let ?st = "\<lparr>out_dirs = {}, out_files = Map.empty, writeToFile_calls = 0\<rparr>"
  have parsed: "map Company.name (companies (parseCSV (map Data ?rs @ [End])))
      = [Some ''Acme'', Some ''Beta'']"
    using parseCSV_rows_end [of ?rs] by simp
  have idx: "[0..<length ?rs] = [0, 1]" by (simp add: upt_rec)
  have h1: "csv_events ?swapped = map Data ?rs @ [End]" by simp
  have h2: "\<forall>i<length ?rs. crawl_of ?swapped i ((?rs ! i) ''YC URL'') = HandlerRuns (?pg i)" by simp
  have h3: "ensureDir_err ?swapped = None" and h4: "writeJson_err ?swapped = None" by simp_all
  have swapped: "processCompanyList ?swapped ?st
   = (Fulfilled (),
      \<lparr>out_dirs = {''out''},
       out_files = [''out/scraped.json'' \<mapsto>
         [\<lparr>CompanyData.name = ''Beta'', founded = ''2020'', description = ''Makes things'',
            teamSize = Exact 12, jobs = [], founders = []\<rparr>,
          \<lparr>CompanyData.name = ''Acme'', founded = ''2020'', description = ''Makes things'',
            teamSize = Exact 12, jobs = [], founders = []\<rparr>]],
       writeToFile_calls = 1\<rparr>)"
    using processCompanyList_writes_handler_results [of ?swapped ?rs ?pg, OF h1 h2 h3 h4, of ?st]
    unfolding idx
    by (simp add: requestHandler_def sel_text_def trim_def or_string_def or_zero_def
        parseInt10_def digit_run_def minus_signed_def is_ws_def is_digit_def digits_value_def Let_def)
  have g1: "csv_events ?stolen = map Data ?rs @ [End]" by simp
  have g2: "(1::nat) < length ?rs" by simp
  have g3: "crawl_of ?stolen 1 ((?rs ! 1) ''YC URL'') = RunEndsUnhandled" by simp
  have g4: "\<forall>j<length ?rs. \<forall>e. crawl_of ?stolen j ((?rs ! j) ''YC URL'') \<noteq> RunRejects e" by simp
  have stolen: "processCompanyList ?stolen ?st = (Pending, ?st)"
    by (rule processCompanyList_unhandled_run_pending [OF g1 g2 g3 g4])
  show ?thesis using parsed swapped stolen by simp
qed

text \<open>
  What holds when a crawler run rejects. With the rows parsed as above and \<open>i\<close> one of
  them: when the run of the \<open>i\<close>-th crawler rejects, \<^verbatim>\<open>processCompanyList\<close>
  rejects, with the error of a rejected run, and the output side is as it was. When the
  \<open>i\<close>-th run does anything but run the handler, \<^verbatim>\<open>processCompanyList\<close> is not
  fulfilled and the output side is as it was: \<^verbatim>\<open>writeToFile\<close> has not been called
  and a file of a previous run is still there.
\<close>

lemma processCompanyList_rejected_run_aborts_all:
  assumes "csv_events env = map Data rs @ [End]" and "i < length rs"
  shows "(crawl_of env i ((rs ! i) ''YC URL'') = RunRejects err \<longrightarrow>
            (\<exists>j e. j < length rs \<and> crawl_of env j ((rs ! j) ''YC URL'') = RunRejects e
                  \<and> processCompanyList env st = (Rejected e, st)))
       \<and> ((\<forall>pg. crawl_of env i ((rs ! i) ''YC URL'') \<noteq> HandlerRuns pg) \<longrightarrow>
            fst (processCompanyList env st) \<noteq> Fulfilled () \<and> snd (processCompanyList env st) = st)"
proof -
  let ?ps = "map (\<lambda>i. (settles_at env i, scrapeCompanyPage (crawl_of env i ((rs ! i) ''YC URL''))))
           [0..<length rs]"
  note run = processCompanyList_after_parse [OF assms(1), of st]
  have ith: "(settles_at env i, scrapeCompanyPage (crawl_of env i ((rs ! i) ''YC URL''))) \<in> set ?ps"
    using assms(2) by auto
  have rejects: "\<exists>j e. j < length rs \<and> crawl_of env j ((rs ! j) ''YC URL'') = RunRejects e
                  \<and> processCompanyList env st = (Rejected e, st)"
    if "crawl_of env i ((rs ! i) ''YC URL'') = RunRejects err"
  proof -
    have "(settles_at env i, Rejected err) \<in> set ?ps"
      using ith that by (simp add: scrapeCompanyPage_def reject_def)
    then obtain t e where er: "earliest_rejection ?ps = Some (t, e)"
      using earliest_rejection_some by fastforce
    then have "(t, Rejected e) \<in> set ?ps" by (rule earliest_rejection_mem)
    then obtain j where j: "j < length rs"
      and sc: "scrapeCompanyPage (crawl_of env j ((rs ! j) ''YC URL'')) = Rejected e"
      by auto
    have "crawl_of env j ((rs ! j) ''YC URL'') = RunRejects e"
      using sc by (cases "crawl_of env j ((rs ! j) ''YC URL'')")
        (simp_all add: scrapeCompanyPage_def resolve_def reject_def)
    moreover have "processCompanyList env st = (Rejected e, st)"
      by (simp add: run promise_all_def er)
    ultimately show ?thesis using j by blast
  qed
  have nowrite: "fst (processCompanyList env st) \<noteq> Fulfilled () \<and> snd (processCompanyList env st) = st"
    if "\<forall>pg. crawl_of env i ((rs ! i) ''YC URL'') \<noteq> HandlerRuns pg"
  proof -
    have notful: "\<nexists>v. scrapeCompanyPage (crawl_of env i ((rs ! i) ''YC URL'')) = Fulfilled v"
      using that by (cases "crawl_of env i ((rs ! i) ''YC URL'')")
        (simp_all add: scrapeCompanyPage_def resolve_def reject_def)
    have "\<not> (\<exists>vs. promise_all ?ps = Fulfilled vs)"
    proof
      assume "\<exists>vs. promise_all ?ps = Fulfilled vs"
      then obtain vs where "promise_all ?ps = Fulfilled vs" ..
      then have "all_fulfilled (map snd ?ps) = Some vs"
        by (auto simp: promise_all_def split: option.splits)
      moreover have "scrapeCompanyPage (crawl_of env i ((rs ! i) ''YC URL'')) \<in> set (map snd ?ps)"
        using assms(2) by (auto simp: comp_def)
      ultimately show False using all_fulfilled_mem notful by blast
    qed
    then show ?thesis
      by (cases "promise_all ?ps") (simp_all add: run)
  qed
  show ?thesis using rejects nowrite by blast
qed

text \<open>
  C6. With the rows parsed as above: the fetch of the \<open>i\<close>-th company fails (its
  crawler gives the request up and its run ends, neither calling the handler nor
  rejecting) and no crawler's run rejects. Then \<^verbatim>\<open>processCompanyList\<close> does not
  reject: its promise stays pending for good. Nothing is written and
  \<^verbatim>\<open>writeToFile\<close> is not called.
\<close>

theorem processCompanyList_failed_fetch_never_rejects:
  assumes "csv_events env = map Data rs @ [End]" and "i < length rs"
    and "crawl_of env i ((rs ! i) ''YC URL'') = RunEndsUnhandled"
    and "\<forall>j<length rs. \<forall>e. crawl_of env j ((rs ! j) ''YC URL'') \<noteq> RunRejects e"
  shows "processCompanyList env st = (Pending, st)
       \<and> (\<forall>e. fst (processCompanyList env st) \<noteq> Rejected e)"
  using processCompanyList_unhandled_run_pending [OF assms] by simp

theorem processCompanyList_failed_fetch_never_rejects_witness:
  "(1::nat) < length [[''Company Name'' \<mapsto> ''Acme'', ''YC URL'' \<mapsto> ''https://yc/acme''],
                      [''Company Name'' \<mapsto> ''Beta'', ''YC URL'' \<mapsto> ''https://yc/beta'']]
   \<and> processCompanyList
     \<lparr>csv_events =
        map Data [[''Company Name'' \<mapsto> ''Acme'', ''YC URL'' \<mapsto> ''https://yc/acme''],
                  [''Company Name'' \<mapsto> ''Beta'', ''YC URL'' \<mapsto> ''https://yc/beta'']] @ [End],
      crawl_of = (\<lambda>i u. if u = Some ''https://yc/beta'' then RunEndsUnhandled
        else HandlerRuns \<lparr>h1_company_name = [''Acme''], span_founded = [], p_description = [],
               span_team_size = [], founder_divs = [], job_divs = []\<rparr>),
      settles_at = (\<lambda>i. i),
      ensureDir_err = None, writeJson_err = None\<rparr>
     \<lparr>out_dirs = {''out''}, out_files = [''out/scraped.json'' \<mapsto> []], writeToFile_calls = 0\<rparr>
   = (Pending,
      \<lparr>out_dirs = {''out''}, out_files = [''out/scraped.json'' \<mapsto> []], writeToFile_calls = 0\<rparr>)"
proof -
  let ?rs = "[[''Company Name'' \<mapsto> ''Acme'', ''YC URL'' \<mapsto> ''https://yc/acme''],
              [''Company Name'' \<mapsto> ''Beta'', ''YC URL'' \<mapsto> ''https://yc/beta'']]"
  let ?env = "\<lparr>csv_events = map Data ?rs @ [End],
      crawl_of = (\<lambda>i u. if u = Some ''https://yc/beta'' then RunEndsUnhandled
        else HandlerRuns \<lparr>h1_company_name = [''Acme''], span_founded = [], p_description = [],
               span_team_size = [], founder_divs = [], job_divs = []\<rparr>),
      settles_at = (\<lambda>i. i),
      ensureDir_err = None, writeJson_err = None\<rparr>"
  have h1: "csv_events ?env = map Data ?rs @ [End]" by simp
  have h2: "(1::nat) < length ?rs" by simp
  have h3: "crawl_of ?env 1 ((?rs ! 1) ''YC URL'') = RunEndsUnhandled" by simp
  have h4: "\<forall>j<length ?rs. \<forall>e. crawl_of ?env j ((?rs ! j) ''YC URL'') \<noteq> RunRejects e" by simp
  show ?thesis
    using h2 processCompanyList_failed_fetch_never_rejects [OF h1 h2 h3 h4,
      of "\<lparr>out_dirs = {''out''}, out_files = [''out/scraped.json'' \<mapsto> []], writeToFile_calls = 0\<rparr>"]
    by simp
qed

end
